theory Spec2Isabelle
  imports
    Main
    "HOL-Library.AList"
    "HOL-Library.Sublist"
    "HOL-Library.Multiset"
    "HOL-Library.Char_ord"
    "HOL-Library.List_Lexorder"
    "HOL-Library.Product_Lexorder"
begin

section \<open>The data of \<^verbatim>\<open>streamlit_app.py\<close>\<close>

text \<open>
  \<^verbatim>\<open>main\<close> works on the document returned by \<^verbatim>\<open>json.load\<close>. The entities
  (instances, volumes, elastic IPs) are Python dictionaries; their values are JSON
  values. The values the program looks at are \<^verbatim>\<open>None\<close> (JSON null, and what
  \<^verbatim>\<open>d.get(k)\<close> gives for an absent key), strings, integers and, for the key
  \<^verbatim>\<open>tags\<close>, a dictionary. A dictionary is kept as an association list in
  insertion order, looked up with \<^const>\<open>map_of\<close>. Booleans and floating-point
  numbers are no fields of the data model and are left out; on \<^verbatim>\<open>None\<close>, strings
  and integers the equality of HOL is the \<^verbatim>\<open>==\<close> of Python.
\<close>

datatype val = VNone | VStr string | VInt int | VDict "(string \<times> val) list"

type_synonym pydict = "(string \<times> val) list"

datatype py_error = TypeError | AttributeError

text \<open>\<^verbatim>\<open>d.get(k)\<close>, \<^verbatim>\<open>d.get(k, default)\<close>, \<^verbatim>\<open>k in d\<close> and \<^verbatim>\<open>d[k] = v\<close>.\<close>

definition get :: "pydict \<Rightarrow> string \<Rightarrow> val" where
  "get d k = (case map_of d k of None \<Rightarrow> VNone | Some v \<Rightarrow> v)"

definition get_default :: "pydict \<Rightarrow> string \<Rightarrow> val \<Rightarrow> val" where
  "get_default d k dflt = (case map_of d k of None \<Rightarrow> dflt | Some v \<Rightarrow> v)"

definition has_key :: "pydict \<Rightarrow> string \<Rightarrow> bool" where
  "has_key d k = (map_of d k \<noteq> None)"

definition setitem :: "pydict \<Rightarrow> string \<Rightarrow> val \<Rightarrow> pydict" where
  "setitem d k v = AList.update k v d"

text \<open>
  The entity dictionaries are mutated in place by \<^verbatim>\<open>main\<close>, so they live in a
  store: an address stands for one Python object, and the lists of the snapshot and
  the flat collections hold addresses. The rest of the snapshot is only read and is
  kept as values. Every key read with \<^verbatim>\<open>.get(key, default)\<close> is optional.
\<close>

type_synonym addr = nat

type_synonym heap = "addr \<Rightarrow> pydict"

text \<open>The object under \<^verbatim>\<open>region_data['instances']\<close>.\<close>

record instances_block =
  running_key :: "int option"
  stopped_key :: "int option"
  total_key :: "int option"
  details_key :: "addr list option"

text \<open>
  One element of \<^verbatim>\<open>data['regions']\<close>. For the four other collections the outer
  option is the key of \<^verbatim>\<open>region_data\<close> and the inner one the key of the object
  under it (\<^verbatim>\<open>instances\<close> for \<^verbatim>\<open>untagged_resources\<close>, \<^verbatim>\<open>details\<close> for the
  others).
\<close>

record region_data =
  region_key :: "string option"
  instances_key :: "instances_block option"
  untagged_resources_key :: "addr list option option"
  stopped_instances_key :: "addr list option option"
  unused_volumes_key :: "addr list option option"
  unused_eips_key :: "addr list option option"

record snapshot =
  regions_key :: "region_data list option"

text \<open>\<^verbatim>\<open>data.get('regions', [])\<close>\<close>

definition regions_of :: "snapshot \<Rightarrow> region_data list" where
  "regions_of data = (case regions_key data of None \<Rightarrow> [] | Some rs \<Rightarrow> rs)"

text \<open>\<^verbatim>\<open>region_data.get('region', 'unknown')\<close>\<close>

definition region_of :: "region_data \<Rightarrow> string" where
  "region_of rd = (case region_key rd of None \<Rightarrow> ''unknown'' | Some r \<Rightarrow> r)"

text \<open>\<^verbatim>\<open>region_data.get('instances', {}).get('details', [])\<close>\<close>

definition instance_details :: "region_data \<Rightarrow> addr list" where
  "instance_details rd =
     (case instances_key rd of
        None \<Rightarrow> []
      | Some blk \<Rightarrow> (case details_key blk of None \<Rightarrow> [] | Some xs \<Rightarrow> xs))"

text \<open>\<^verbatim>\<open>region_data.get(key, {}).get(inner, [])\<close> for the four other collections.\<close>

definition nested_list :: "addr list option option \<Rightarrow> addr list" where
  "nested_list b =
     (case b of None \<Rightarrow> [] | Some None \<Rightarrow> [] | Some (Some xs) \<Rightarrow> xs)"

section \<open>Preparing the aggregated data (lines 98 to 130)\<close>

text \<open>The state of the loop: the store and the five lists being appended to.\<close>

record flat =
  heap :: heap
  all_instances :: "addr list"
  all_untagged :: "addr list"
  all_stopped :: "addr list"
  all_unused_volumes :: "addr list"
  all_unused_eips :: "addr list"

text \<open>
  One inner loop:
  \<^verbatim>\<open>for instance in xs: instance['region'] = region; acc.append(instance)\<close>.
  The assignment writes into the object the snapshot holds; the same object is
  appended.
\<close>

fun tag_all :: "string \<Rightarrow> addr list \<Rightarrow> heap \<times> addr list \<Rightarrow> heap \<times> addr list" where
  "tag_all reg [] (h, acc) = (h, acc)"
| "tag_all reg (a # as) (h, acc) =
     tag_all reg as (h(a := setitem (h a) ''region'' (VStr reg)), acc @ [a])"

text \<open>The body of the outer loop, for one \<^verbatim>\<open>region_data\<close>.\<close>

definition normalize_region :: "region_data \<Rightarrow> flat \<Rightarrow> flat" where
  "normalize_region rd s =
     (let reg = region_of rd;
          (h1, insts) = tag_all reg (instance_details rd) (heap s, all_instances s);
          (h2, untg) = tag_all reg (nested_list (untagged_resources_key rd)) (h1, all_untagged s);
          (h3, stpd) = tag_all reg (nested_list (stopped_instances_key rd)) (h2, all_stopped s);
          (h4, vols) = tag_all reg (nested_list (unused_volumes_key rd)) (h3, all_unused_volumes s);
          (h5, eips) = tag_all reg (nested_list (unused_eips_key rd)) (h4, all_unused_eips s)
      in \<lparr>heap = h5, all_instances = insts, all_untagged = untg, all_stopped = stpd,
          all_unused_volumes = vols, all_unused_eips = eips\<rparr>)"

definition normalize :: "heap \<Rightarrow> snapshot \<Rightarrow> flat" where
  "normalize h data =
     fold normalize_region (regions_of data)
       \<lparr>heap = h, all_instances = [], all_untagged = [], all_stopped = [],
        all_unused_volumes = [], all_unused_eips = []\<rparr>"

text \<open>The objects a list of references stands for, read from the store.\<close>

definition objects :: "heap \<Rightarrow> addr list \<Rightarrow> pydict list" where
  "objects h as = map h as"

text \<open>All entity objects of one region, and of the snapshot.\<close>

definition region_refs :: "region_data \<Rightarrow> addr list" where
  "region_refs rd =
     instance_details rd @ nested_list (untagged_resources_key rd) @
     nested_list (stopped_instances_key rd) @ nested_list (unused_volumes_key rd) @
     nested_list (unused_eips_key rd)"

definition snapshot_refs :: "snapshot \<Rightarrow> addr list" where
  "snapshot_refs data = concat (map region_refs (regions_of data))"

text \<open>
  The store after the inner loops over the objects \<open>A\<close> with region \<open>reg\<close>
  (used to state what the loops do; not a function of the program).
\<close>

definition tagged :: "heap \<Rightarrow> string \<Rightarrow> addr set \<Rightarrow> heap" where
  "tagged h reg A = (\<lambda>a. if a \<in> A then setitem (h a) ''region'' (VStr reg) else h a)"

section \<open>The main metrics (lines 135 to 151)\<close>

text \<open>
  From here on the program only reads the entities, so the functions below take
  the dictionaries themselves (\<^const>\<open>objects\<close> of the store after the
  flattening) where they read fields, and the flat state where they only count.
\<close>

definition total_instances :: "flat \<Rightarrow> nat" where
  "total_instances f = length (all_instances f)"

definition running_instances :: "flat \<Rightarrow> nat" where
  "running_instances f =
     length (filter (\<lambda>i. get i ''state'' = VStr ''running'')
       (objects (heap f) (all_instances f)))"

definition stopped_instances :: "flat \<Rightarrow> nat" where
  "stopped_instances f = length (all_stopped f)"

definition untagged_count :: "flat \<Rightarrow> nat" where
  "untagged_count f = length (all_untagged f)"

definition unused_volumes_count :: "flat \<Rightarrow> nat" where
  "unused_volumes_count f = length (all_unused_volumes f)"

definition unused_eips_count :: "flat \<Rightarrow> nat" where
  "unused_eips_count f = length (all_unused_eips f)"

definition total_cost_risks :: "flat \<Rightarrow> nat" where
  "total_cost_risks f = stopped_instances f + unused_volumes_count f + unused_eips_count f"

section \<open>Instances per region (lines 173 to 196)\<close>

record stats =
  stat_running :: int
  stat_stopped :: int
  stat_total :: int

text \<open>
  The loop filling \<^verbatim>\<open>region_stats\<close>. Assigning to a key a dictionary already
  has replaces the value and keeps the key's place; a new key goes last.
\<close>

definition stats_of :: "region_data \<Rightarrow> stats" where
  "stats_of rd =
     (let blk = instances_key rd in
      \<lparr>stat_running = (case blk of None \<Rightarrow> 0 | Some b \<Rightarrow> (case running_key b of None \<Rightarrow> 0 | Some n \<Rightarrow> n)),
       stat_stopped = (case blk of None \<Rightarrow> 0 | Some b \<Rightarrow> (case stopped_key b of None \<Rightarrow> 0 | Some n \<Rightarrow> n)),
       stat_total = (case blk of None \<Rightarrow> 0 | Some b \<Rightarrow> (case total_key b of None \<Rightarrow> 0 | Some n \<Rightarrow> n))\<rparr>)"

definition region_stats :: "snapshot \<Rightarrow> (string \<times> stats) list" where
  "region_stats data =
     fold (\<lambda>rd acc. AList.update (region_of rd) (stats_of rd) acc) (regions_of data) []"

text \<open>One row of \<^verbatim>\<open>df_regions\<close>; the columns are Regiao, Em Execucao, Paradas, Total.\<close>

record region_row =
  regiao :: string
  em_execucao :: int
  paradas :: int
  total_col :: int

definition region_rows :: "(string \<times> stats) list \<Rightarrow> region_row list" where
  "region_rows rs =
     map (\<lambda>(reg, st). \<lparr>regiao = reg, em_execucao = stat_running st,
                        paradas = stat_stopped st, total_col = stat_total st\<rparr>) rs"

text \<open>
  \<^verbatim>\<open>df_regions.sort_values('Total', ascending=False)\<close>. The only sort key is
  the column Total, and the sort is the default one of pandas (quicksort), which
  is not stable: the library does not fix the order of rows with equal Total. It
  computes the new order from the column alone, never from another column of the
  frame. The parameter \<open>tie\<close> stands for that part of the library: given the
  column, \<open>tie ks i\<close> is the rank of the row at position \<open>i\<close> among the rows
  that have its Total. Rows are ordered by descending Total, then by that rank
  (rows of equal rank stay in frame order). Every order the library can produce is
  the order of some \<open>tie\<close>; \<open>\<lambda>ks i. i\<close> is the stable sort.
\<close>

definition sort_values_total_desc ::
  "(int list \<Rightarrow> nat \<Rightarrow> nat) \<Rightarrow> region_row list \<Rightarrow> region_row list" where
  "sort_values_total_desc tie rows =
     (let ks = map total_col rows in
      map snd (sort_key (\<lambda>(i, r). (- total_col r, tie ks i)) (enumerate 0 rows)))"

text \<open>The frame that is charted; \<open>None\<close> is the branch \<^verbatim>\<open>st.info(...)\<close>.\<close>

definition df_regions ::
  "(int list \<Rightarrow> nat \<Rightarrow> nat) \<Rightarrow> snapshot \<Rightarrow> region_row list option" where
  "df_regions tie data =
     (if region_stats data \<noteq> []
      then Some (sort_values_total_desc tie (region_rows (region_stats data)))
      else None)"

text \<open>
  The order the specification asks for: descending on Total, rows with equal Total
  ascending on the region code (strings compared as Python compares them,
  character by character).
\<close>

definition total_desc_then_region_asc :: "region_row list \<Rightarrow> bool" where
  "total_desc_then_region_asc rows =
     sorted_wrt (\<lambda>r1 r2. total_col r2 < total_col r1 \<or>
                          (total_col r1 = total_col r2 \<and> regiao r1 \<le> regiao r2)) rows"

section \<open>Tagging compliance (lines 241 to 286)\<close>

text \<open>
  \<^verbatim>\<open>k not in tags or tags.get(k) == 'N/A'\<close>, where \<^verbatim>\<open>tags\<close> is whatever
  \<^verbatim>\<open>instance.get('tags', {})\<close> returned. On a dictionary it is the test on its keys.
  On a string, \<^verbatim>\<open>in\<close> is the substring test, and \<^verbatim>\<open>.get\<close> raises once the
  left operand is false. \<^verbatim>\<open>None\<close> and integers are no containers.
\<close>

fun tag_missing :: "val \<Rightarrow> string \<Rightarrow> py_error + bool" where
  "tag_missing (VDict d) k = Inr (\<not> has_key d k \<or> get d k = VStr ''N/A'')"
| "tag_missing (VStr s) k = (if sublist k s then Inl AttributeError else Inr True)"
| "tag_missing VNone k = Inl TypeError"
| "tag_missing (VInt n) k = Inl TypeError"

text \<open>The dictionary \<^verbatim>\<open>missing_tags_analysis\<close>, with its four fixed keys.\<close>

record missing_tags =
  sem_name :: "pydict list"
  sem_owner :: "pydict list"
  sem_costcenter :: "pydict list"
  sem_environment :: "pydict list"

text \<open>The loop over \<^verbatim>\<open>all_instances\<close>; an exception ends it.\<close>

fun missing_tags_loop :: "pydict list \<Rightarrow> missing_tags \<Rightarrow> py_error + missing_tags" where
  "missing_tags_loop [] m = Inr m"
| "missing_tags_loop (instance # rest) m =
     (let tags = get_default instance ''tags'' (VDict []) in
      case tag_missing tags ''Name'' of Inl e \<Rightarrow> Inl e | Inr b1 \<Rightarrow>
      let m1 = (if b1 then m\<lparr>sem_name := sem_name m @ [instance]\<rparr> else m) in
      case tag_missing tags ''owner'' of Inl e \<Rightarrow> Inl e | Inr b2 \<Rightarrow>
      let m2 = (if b2 then m1\<lparr>sem_owner := sem_owner m1 @ [instance]\<rparr> else m1) in
      case tag_missing tags ''CostCenter'' of Inl e \<Rightarrow> Inl e | Inr b3 \<Rightarrow>
      let m3 = (if b3 then m2\<lparr>sem_costcenter := sem_costcenter m2 @ [instance]\<rparr> else m2) in
      case tag_missing tags ''Environment'' of Inl e \<Rightarrow> Inl e | Inr b4 \<Rightarrow>
      let m4 = (if b4 then m3\<lparr>sem_environment := sem_environment m3 @ [instance]\<rparr> else m3) in
      missing_tags_loop rest m4)"

definition missing_tags_analysis :: "pydict list \<Rightarrow> py_error + missing_tags" where
  "missing_tags_analysis insts =
     missing_tags_loop insts
       \<lparr>sem_name = [], sem_owner = [], sem_costcenter = [], sem_environment = []\<rparr>"

text \<open>The four numbers shown by \<^verbatim>\<open>st.metric(tag_type, len(instances))\<close>.\<close>

record missing_counts =
  n_sem_name :: nat
  n_sem_owner :: nat
  n_sem_costcenter :: nat
  n_sem_environment :: nat

definition counts_of :: "missing_tags \<Rightarrow> missing_counts" where
  "counts_of m =
     \<lparr>n_sem_name = length (sem_name m), n_sem_owner = length (sem_owner m),
      n_sem_costcenter = length (sem_costcenter m),
      n_sem_environment = length (sem_environment m)\<rparr>"

text \<open>
  One row of \<^verbatim>\<open>df_untagged\<close>. The four marks are read from the flattened fields
  of the instance, not from its tags; \<open>True\<close> is the check mark.
\<close>

record untagged_row =
  row_instance_id :: val
  row_nome :: val
  row_regiao :: val
  row_estado :: val
  row_tipo :: val
  name_tag :: bool
  owner_tag :: bool
  costcenter_tag :: bool
  environment_tag :: bool

definition untagged_row_of :: "pydict \<Rightarrow> untagged_row" where
  "untagged_row_of inst =
     \<lparr>row_instance_id = get_default inst ''instance_id'' (VStr ''N/A''),
      row_nome = get_default inst ''name'' (VStr ''N/A''),
      row_regiao = get_default inst ''region'' (VStr ''N/A''),
      row_estado = get_default inst ''state'' (VStr ''N/A''),
      row_tipo = get_default inst ''instance_type'' (VStr ''N/A''),
      name_tag = (get inst ''name'' \<noteq> VStr ''N/A''),
      owner_tag = (get inst ''owner'' \<noteq> VStr ''N/A''),
      costcenter_tag = (get inst ''cost_center'' \<noteq> VStr ''N/A''),
      environment_tag = (get inst ''environment'' \<noteq> VStr ''N/A'')\<rparr>"

text \<open>
  What the tab shows: the success message, or the warning with the four counts and
  the table. \<^verbatim>\<open>if all_untagged:\<close> is the test that the list is not empty.
\<close>

datatype tagging_view = AllTagged | MissingTags missing_counts "untagged_row list"

definition tagging_compliance :: "pydict list \<Rightarrow> pydict list \<Rightarrow> py_error + tagging_view" where
  "tagging_compliance untagged insts =
     (if untagged \<noteq> []
      then (case missing_tags_analysis insts of
              Inl e \<Rightarrow> Inl e
            | Inr m \<Rightarrow> Inr (MissingTags (counts_of m) (map untagged_row_of untagged)))
      else Inr AllTagged)"

text \<open>
  The test the specification gives for one mandatory tag: the key is absent from
  the tags of the instance, or its value is the literal N/A.
\<close>

definition tags_of :: "pydict \<Rightarrow> pydict" where
  "tags_of inst = (case map_of inst ''tags'' of Some (VDict d) \<Rightarrow> d | _ \<Rightarrow> [])"

definition lacks_tag :: "string \<Rightarrow> pydict \<Rightarrow> bool" where
  "lacks_tag k inst = (map_of (tags_of inst) k = None \<or> map_of (tags_of inst) k = Some (VStr ''N/A''))"

text \<open>The tags of an instance are a dictionary, when it has the key at all.\<close>

definition tags_well_typed :: "pydict \<Rightarrow> bool" where
  "tags_well_typed inst =
     (case map_of inst ''tags'' of None \<Rightarrow> True | Some (VDict d) \<Rightarrow> True | Some _ \<Rightarrow> False)"

section \<open>Cost optimisation (lines 296 to 345)\<close>

text \<open>
  Python's \<^verbatim>\<open>sum\<close>: it starts from the integer 0 and adds each item; adding
  anything that is not a number to an integer raises \<^verbatim>\<open>TypeError\<close>.
\<close>

fun py_sum :: "int \<Rightarrow> val list \<Rightarrow> py_error + int" where
  "py_sum acc [] = Inr acc"
| "py_sum acc (VInt n # vs) = py_sum (acc + n) vs"
| "py_sum acc (v # vs) = Inl TypeError"

text \<open>\<^verbatim>\<open>sum(v.get('size', 0) for v in all_unused_volumes)\<close>\<close>

definition total_size :: "pydict list \<Rightarrow> py_error + int" where
  "total_size vols = py_sum 0 (map (\<lambda>v. get_default v ''size'' (VInt 0)) vols)"

text \<open>The volumes column: the success message, or the warning with count and GB.\<close>

datatype volumes_view = NoUnusedVolumes | UnusedVolumes nat int

definition unused_volumes_view :: "pydict list \<Rightarrow> py_error + volumes_view" where
  "unused_volumes_view vols =
     (if vols \<noteq> []
      then (case total_size vols of
              Inl e \<Rightarrow> Inl e
            | Inr t \<Rightarrow> Inr (UnusedVolumes (length vols) t))
      else Inr NoUnusedVolumes)"

text \<open>
  The size of a volume as the specification counts it: the integer under the key
  \<^verbatim>\<open>size\<close>, and 0 when the key is absent.
\<close>

definition size_gb :: "pydict \<Rightarrow> int" where
  "size_gb v = (case map_of v ''size'' of Some (VInt n) \<Rightarrow> n | _ \<Rightarrow> 0)"

definition size_well_typed :: "pydict \<Rightarrow> bool" where
  "size_well_typed v =
     (case map_of v ''size'' of None \<Rightarrow> True | Some (VInt n) \<Rightarrow> True | Some _ \<Rightarrow> False)"

section \<open>The instance filters (lines 351 to 387)\<close>

text \<open>
  \<^verbatim>\<open>set(...)\<close> of a generator: the values must be hashable, and a dictionary is
  not. \<^verbatim>\<open>list(set(...))\<close> lists the members in an order Python does not fix, so
  the options after the first one are kept as a set.
\<close>

fun hashable :: "val \<Rightarrow> bool" where
  "hashable (VDict d) = False"
| "hashable v = True"

definition py_set :: "val list \<Rightarrow> py_error + val set" where
  "py_set vs = (if list_all hashable vs then Inr (set vs) else Inl TypeError)"

text \<open>
  The options of the region, environment and owner select boxes that follow the
  first option (\<^verbatim>\<open>'Todas'\<close> or \<^verbatim>\<open>'Todos'\<close>).
\<close>

definition region_options :: "pydict list \<Rightarrow> py_error + val set" where
  "region_options insts = py_set (map (\<lambda>inst. get inst ''region'') insts)"

definition environment_options :: "pydict list \<Rightarrow> py_error + val set" where
  "environment_options insts =
     py_set (map (\<lambda>inst. get inst ''environment'')
       (filter (\<lambda>inst. get inst ''environment'' \<noteq> VStr ''N/A'') insts))"

definition owner_options :: "pydict list \<Rightarrow> py_error + val set" where
  "owner_options insts =
     py_set (map (\<lambda>inst. get inst ''owner'')
       (filter (\<lambda>inst. get inst ''owner'' \<noteq> VStr ''N/A'') insts))"

text \<open>Applying the filters; each selected value is one option of its select box.\<close>

definition filter_instances ::
  "val \<Rightarrow> val \<Rightarrow> val \<Rightarrow> val \<Rightarrow> pydict list \<Rightarrow> pydict list" where
  "filter_instances selected_region selected_state selected_environment selected_owner insts =
     (let filtered0 = insts;
          filtered1 = (if selected_region \<noteq> VStr ''Todas''
                       then filter (\<lambda>i. get i ''region'' = selected_region) filtered0
                       else filtered0);
          filtered2 = (if selected_state \<noteq> VStr ''Todos''
                       then filter (\<lambda>i. get i ''state'' = selected_state) filtered1
                       else filtered1);
          filtered3 = (if selected_environment \<noteq> VStr ''Todos''
                       then filter (\<lambda>i. get i ''environment'' = selected_environment) filtered2
                       else filtered2);
          filtered4 = (if selected_owner \<noteq> VStr ''Todos''
                       then filter (\<lambda>i. get i ''owner'' = selected_owner) filtered3
                       else filtered3)
      in filtered4)"

text \<open>
  One dimension of the filter as the specification describes it: the match-all
  value constrains nothing, any other value must equal the field.
\<close>

definition satisfies :: "string \<Rightarrow> string \<Rightarrow> val \<Rightarrow> pydict \<Rightarrow> bool" where
  "satisfies match_all field selected inst =
     (if selected = VStr match_all then True else get inst field = selected)"

definition satisfies_all :: "val \<Rightarrow> val \<Rightarrow> val \<Rightarrow> val \<Rightarrow> pydict \<Rightarrow> bool" where
  "satisfies_all sr ss se so inst =
     (satisfies ''Todas'' ''region'' sr inst \<and> satisfies ''Todos'' ''state'' ss inst \<and>
      satisfies ''Todos'' ''environment'' se inst \<and> satisfies ''Todos'' ''owner'' so inst)"

section \<open>The executive summary (lines 480 to 488)\<close>

text \<open>The dictionary \<^verbatim>\<open>summary\<close>; its seven keys are fixed.\<close>

record executive_summary =
  total_de_instancias :: nat
  instancias_em_execucao :: nat
  instancias_paradas :: nat
  recursos_nao_taggeados :: nat
  volumes_nao_utilizados :: nat
  eips_nao_utilizados :: nat
  total_de_regioes :: nat

definition summary :: "snapshot \<Rightarrow> flat \<Rightarrow> executive_summary" where
  "summary data f =
     \<lparr>total_de_instancias = total_instances f,
      instancias_em_execucao = running_instances f,
      instancias_paradas = stopped_instances f,
      recursos_nao_taggeados = untagged_count f,
      volumes_nao_utilizados = length (all_unused_volumes f),
      eips_nao_utilizados = length (all_unused_eips f),
      total_de_regioes = length (regions_of data)\<rparr>"

section \<open>A snapshot of two regions\<close>

text \<open>
  The store after loading: every JSON object of the document is an object of its
  own. Region us-west-2 reports running 3, stopped 1, total 4 and has two
  instances, one untagged and one stopped entry, two unused volumes of 10 and 20 GB
  and one unused address; region eu-west-1 reports total 4 and has one instance.
\<close>

definition ex_heap :: heap where
  "ex_heap =
     (\<lambda>a. [])
       (0 := [(''instance_id'', VStr ''i-1''), (''state'', VStr ''running''),
              (''environment'', VStr ''prod''), (''owner'', VStr ''alice''),
              (''tags'', VDict [(''Name'', VStr ''x''), (''owner'', VStr ''N/A'')])],
        1 := [(''instance_id'', VStr ''i-2''), (''state'', VStr ''stopped'')],
        2 := [(''instance_id'', VStr ''i-2''), (''name'', VStr ''N/A'')],
        3 := [(''volume_id'', VStr ''vol-1''), (''size'', VInt 10)],
        4 := [(''volume_id'', VStr ''vol-2''), (''size'', VInt 20)],
        5 := [(''allocation_id'', VStr ''eipalloc-1'')],
        6 := [(''instance_id'', VStr ''i-3''), (''state'', VStr ''running''),
              (''environment'', VStr ''N/A'')],
        7 := [(''instance_id'', VStr ''i-2''), (''owner'', VStr ''N/A'')])"

definition ex_region_a :: region_data where
  "ex_region_a =
     \<lparr>region_key = Some ''us-west-2'',
      instances_key = Some \<lparr>running_key = Some 3, stopped_key = Some 1,
                            total_key = Some 4, details_key = Some [0, 1]\<rparr>,
      untagged_resources_key = Some (Some [7]),
      stopped_instances_key = Some (Some [2]),
      unused_volumes_key = Some (Some [3, 4]),
      unused_eips_key = Some (Some [5])\<rparr>"

definition ex_region_b :: region_data where
  "ex_region_b =
     \<lparr>region_key = Some ''eu-west-1'',
      instances_key = Some \<lparr>running_key = Some 1, stopped_key = None,
                            total_key = Some 4, details_key = Some [6]\<rparr>,
      untagged_resources_key = None,
      stopped_instances_key = Some None,
      unused_volumes_key = None,
      unused_eips_key = None\<rparr>"

definition ex_data :: snapshot where
  "ex_data = \<lparr>regions_key = Some [ex_region_a, ex_region_b]\<rparr>"

text \<open>The same two regions in the other order.\<close>

definition ex_data_swapped :: snapshot where
  "ex_data_swapped = \<lparr>regions_key = Some [ex_region_b, ex_region_a]\<rparr>"

section \<open>Properties of the flattening\<close>

lemma tag_all_eq:
  "tag_all reg as (h, acc) =
     ((\<lambda>a. if a \<in> set as then setitem (h a) ''region'' (VStr reg) else h a), acc @ as)"
proof (induction as arbitrary: h acc)
  case Nil
  show ?case by simp
next
  case (Cons a as)
  show ?case
    by (simp add: Cons.IH setitem_def fun_eq_iff)
qed

lemma setitem_twice: "setitem (setitem d k v) k v = setitem d k v"
  by (simp add: setitem_def)

lemma tag_all_tagged: "tag_all reg as (h, acc) = (tagged h reg (set as), acc @ as)"
  by (simp add: tag_all_eq tagged_def)

lemma tagged_tagged: "tagged (tagged h reg A) reg B = tagged h reg (A \<union> B)"
  by (auto simp add: tagged_def fun_eq_iff setitem_twice)

lemma normalize_region_eq:
  "normalize_region rd s =
     \<lparr>heap = tagged (heap s) (region_of rd) (set (region_refs rd)),
      all_instances = all_instances s @ instance_details rd,
      all_untagged = all_untagged s @ nested_list (untagged_resources_key rd),
      all_stopped = all_stopped s @ nested_list (stopped_instances_key rd),
      all_unused_volumes = all_unused_volumes s @ nested_list (unused_volumes_key rd),
      all_unused_eips = all_unused_eips s @ nested_list (unused_eips_key rd)\<rparr>"
  by (simp add: normalize_region_def tag_all_tagged tagged_tagged region_refs_def Un_assoc)

lemma heap_normalize_region:
  "heap (normalize_region rd s) a =
     (if a \<in> set (region_refs rd)
      then setitem (heap s a) ''region'' (VStr (region_of rd)) else heap s a)"
  by (simp add: normalize_region_eq tagged_def)

lemma lists_normalize_region:
  "all_instances (normalize_region rd s) = all_instances s @ instance_details rd"
  "all_untagged (normalize_region rd s) = all_untagged s @ nested_list (untagged_resources_key rd)"
  "all_stopped (normalize_region rd s) = all_stopped s @ nested_list (stopped_instances_key rd)"
  "all_unused_volumes (normalize_region rd s) =
     all_unused_volumes s @ nested_list (unused_volumes_key rd)"
  "all_unused_eips (normalize_region rd s) = all_unused_eips s @ nested_list (unused_eips_key rd)"
  by (simp_all add: normalize_region_eq)

lemma fold_all_instances:
  "all_instances (fold normalize_region rs s) = all_instances s @ concat (map instance_details rs)"
  by (induction rs arbitrary: s) (simp_all add: lists_normalize_region)

lemma fold_heap_outside:
  "a \<notin> set (concat (map region_refs rs)) \<Longrightarrow> heap (fold normalize_region rs s) a = heap s a"
  by (induction rs arbitrary: s) (simp_all add: heap_normalize_region)

lemma map_of_setitem_other: "k \<noteq> k' \<Longrightarrow> map_of (setitem d k' v) k = map_of d k"
  by (simp add: setitem_def update_conv')

lemma fold_heap_other_keys:
  "k \<noteq> ''region'' \<Longrightarrow> map_of (heap (fold normalize_region rs s) a) k = map_of (heap s a) k"
  by (induction rs arbitrary: s) (simp_all add: heap_normalize_region map_of_setitem_other)

lemma fold_heap_region:
  "distinct (concat (map region_refs rs)) \<Longrightarrow> rd \<in> set rs \<Longrightarrow> a \<in> set (region_refs rd) \<Longrightarrow>
   heap (fold normalize_region rs s) a = setitem (heap s a) ''region'' (VStr (region_of rd))"
proof (induction rs arbitrary: s)
  case Nil
  then show ?case by simp
next
  case (Cons r rs)
  show ?case
  proof (cases "rd = r")
    case True
    with Cons.prems have "a \<notin> set (concat (map region_refs rs))" by auto
    then show ?thesis using True Cons.prems
      by (simp add: fold_heap_outside heap_normalize_region)
  next
    case False
    with Cons.prems have in_rs: "rd \<in> set rs" and d: "distinct (concat (map region_refs rs))"
      by auto
    from Cons.prems in_rs have "a \<notin> set (region_refs r)" by auto
    then show ?thesis using Cons.IH[OF d in_rs Cons.prems(3)]
      by (simp add: heap_normalize_region)
  qed
qed

lemma fold_lists:
  "all_untagged (fold normalize_region rs s) =
     all_untagged s @ concat (map (\<lambda>rd. nested_list (untagged_resources_key rd)) rs)"
  "all_stopped (fold normalize_region rs s) =
     all_stopped s @ concat (map (\<lambda>rd. nested_list (stopped_instances_key rd)) rs)"
  "all_unused_volumes (fold normalize_region rs s) =
     all_unused_volumes s @ concat (map (\<lambda>rd. nested_list (unused_volumes_key rd)) rs)"
  "all_unused_eips (fold normalize_region rs s) =
     all_unused_eips s @ concat (map (\<lambda>rd. nested_list (unused_eips_key rd)) rs)"
  by (induction rs arbitrary: s) (simp_all add: lists_normalize_region)

lemma setitem_over: "setitem (setitem d k v) k v' = setitem d k v'"
  by (simp add: setitem_def)

lemma fold_heap_some_region:
  "a \<in> set (concat (map region_refs rs)) \<Longrightarrow>
   \<exists>rd\<in>set rs. a \<in> set (region_refs rd) \<and>
      heap (fold normalize_region rs s) a = setitem (heap s a) ''region'' (VStr (region_of rd))"
proof (induction rs arbitrary: s)
  case Nil
  then show ?case by simp
next
  case (Cons r rs)
  show ?case
  proof (cases "a \<in> set (concat (map region_refs rs))")
    case True
    from Cons.IH[OF True, of "normalize_region r s"]
    obtain rd where rd: "rd \<in> set rs" "a \<in> set (region_refs rd)"
      "heap (fold normalize_region rs (normalize_region r s)) a =
         setitem (heap (normalize_region r s) a) ''region'' (VStr (region_of rd))"
      by blast
    have "setitem (heap (normalize_region r s) a) ''region'' (VStr (region_of rd)) =
          setitem (heap s a) ''region'' (VStr (region_of rd))"
      by (simp add: heap_normalize_region setitem_over)
    with rd show ?thesis by auto
  next
    case False
    with Cons.prems have "a \<in> set (region_refs r)" by auto
    with False show ?thesis
      by (simp add: fold_heap_outside heap_normalize_region)
  qed
qed

lemma get_setitem_same: "get (setitem d k v) k = v"
  by (simp add: get_def setitem_def update_conv')

lemma normalize_lists:
  "all_instances (normalize h data) = concat (map instance_details (regions_of data))"
  "all_untagged (normalize h data) =
     concat (map (\<lambda>rd. nested_list (untagged_resources_key rd)) (regions_of data))"
  "all_stopped (normalize h data) =
     concat (map (\<lambda>rd. nested_list (stopped_instances_key rd)) (regions_of data))"
  "all_unused_volumes (normalize h data) =
     concat (map (\<lambda>rd. nested_list (unused_volumes_key rd)) (regions_of data))"
  "all_unused_eips (normalize h data) =
     concat (map (\<lambda>rd. nested_list (unused_eips_key rd)) (regions_of data))"
  by (simp_all add: normalize_def fold_all_instances fold_lists)

text \<open>
  Claim C3. When every JSON object of the snapshot is an object of its own (as
  \<^verbatim>\<open>json.load\<close> builds them), each of the five flat collections is the
  concatenation, in the order of the regions and then in the order of the source
  list, of the corresponding nested lists, so no entity is dropped or duplicated;
  and every flattened entity is the nested entity with its key \<^verbatim>\<open>region\<close> set
  to the code of the enclosing region.
\<close>

theorem flattening_correct:
  assumes "distinct (snapshot_refs data)"
  shows "all_instances (normalize h data) = concat (map instance_details (regions_of data)) \<and>
         all_untagged (normalize h data) =
           concat (map (\<lambda>rd. nested_list (untagged_resources_key rd)) (regions_of data)) \<and>
         all_stopped (normalize h data) =
           concat (map (\<lambda>rd. nested_list (stopped_instances_key rd)) (regions_of data)) \<and>
         all_unused_volumes (normalize h data) =
           concat (map (\<lambda>rd. nested_list (unused_volumes_key rd)) (regions_of data)) \<and>
         all_unused_eips (normalize h data) =
           concat (map (\<lambda>rd. nested_list (unused_eips_key rd)) (regions_of data)) \<and>
         (\<forall>rd\<in>set (regions_of data). \<forall>a\<in>set (region_refs rd).
            heap (normalize h data) a = setitem (h a) ''region'' (VStr (region_of rd)) \<and>
            get (heap (normalize h data) a) ''region'' = VStr (region_of rd))"
proof -
  have "heap (normalize h data) a = setitem (h a) ''region'' (VStr (region_of rd))"
    if "rd \<in> set (regions_of data)" "a \<in> set (region_refs rd)" for rd a
    using assms that fold_heap_region[of "regions_of data" rd a]
    by (simp add: normalize_def snapshot_refs_def)
  then show ?thesis
    by (simp add: normalize_lists get_setitem_same)
qed

text \<open>The two-region snapshot: its lists and the region of a volume and an instance.\<close>

theorem flattening_correct_witness:
  "distinct (snapshot_refs ex_data) \<and>
   all_instances (normalize ex_heap ex_data) = [0, 1, 6] \<and>
   all_untagged (normalize ex_heap ex_data) = [7] \<and>
   all_stopped (normalize ex_heap ex_data) = [2] \<and>
   all_unused_volumes (normalize ex_heap ex_data) = [3, 4] \<and>
   all_unused_eips (normalize ex_heap ex_data) = [5] \<and>
   get (heap (normalize ex_heap ex_data) 4) ''region'' = VStr ''us-west-2'' \<and>
   get (heap (normalize ex_heap ex_data) 6) ''region'' = VStr ''eu-west-1''"
proof -
  have d: "distinct (snapshot_refs ex_data)"
    by (simp add: snapshot_refs_def regions_of_def ex_data_def region_refs_def
        instance_details_def nested_list_def ex_region_a_def ex_region_b_def)
  have ra: "ex_region_a \<in> set (regions_of ex_data)" "4 \<in> set (region_refs ex_region_a)"
    and rb: "ex_region_b \<in> set (regions_of ex_data)" "6 \<in> set (region_refs ex_region_b)"
    by (simp_all add: regions_of_def ex_data_def region_refs_def
        instance_details_def nested_list_def ex_region_a_def ex_region_b_def)
  note fc = flattening_correct[OF d, of ex_heap]
  from fc ra have a4: "get (heap (normalize ex_heap ex_data) 4) ''region'' = VStr (region_of ex_region_a)"
    by blast
  from fc rb have b6: "get (heap (normalize ex_heap ex_data) 6) ''region'' = VStr (region_of ex_region_b)"
    by blast
  have lists: "concat (map instance_details (regions_of ex_data)) = [0, 1, 6]"
    "concat (map (\<lambda>rd. nested_list (untagged_resources_key rd)) (regions_of ex_data)) = [7]"
    "concat (map (\<lambda>rd. nested_list (stopped_instances_key rd)) (regions_of ex_data)) = [2]"
    "concat (map (\<lambda>rd. nested_list (unused_volumes_key rd)) (regions_of ex_data)) = [3, 4]"
    "concat (map (\<lambda>rd. nested_list (unused_eips_key rd)) (regions_of ex_data)) = [5]"
    by (simp_all add: regions_of_def ex_data_def
        instance_details_def nested_list_def ex_region_a_def ex_region_b_def)
  have regs: "region_of ex_region_a = ''us-west-2''" "region_of ex_region_b = ''eu-west-1''"
    by (simp_all add: region_of_def ex_region_a_def ex_region_b_def)
  from d fc a4 b6 show ?thesis
    by (simp add: lists regs)
qed

text \<open>
  Claim C1, as amended. The flat collections hold the objects of the snapshot
  themselves, not copies: together they are exactly the entity objects of the
  nested lists, and the region is written into each of those objects in place.
  The write touches nothing else: objects outside the snapshot are unchanged and
  so is every key other than \<^verbatim>\<open>region\<close>.
\<close>

theorem normalizer_shares_entities:
  "set (all_instances (normalize h data)) \<union> set (all_untagged (normalize h data)) \<union>
   set (all_stopped (normalize h data)) \<union> set (all_unused_volumes (normalize h data)) \<union>
   set (all_unused_eips (normalize h data)) = set (snapshot_refs data) \<and>
   (\<forall>a\<in>set (snapshot_refs data). \<exists>rd\<in>set (regions_of data).
      a \<in> set (region_refs rd) \<and>
      heap (normalize h data) a = setitem (h a) ''region'' (VStr (region_of rd))) \<and>
   (\<forall>a. a \<notin> set (snapshot_refs data) \<longrightarrow> heap (normalize h data) a = h a) \<and>
   (\<forall>a k. k \<noteq> ''region'' \<longrightarrow> map_of (heap (normalize h data) a) k = map_of (h a) k)"
proof -
  have 1: "set (all_instances (normalize h data)) \<union> set (all_untagged (normalize h data)) \<union>
    set (all_stopped (normalize h data)) \<union> set (all_unused_volumes (normalize h data)) \<union>
    set (all_unused_eips (normalize h data)) = set (snapshot_refs data)"
    by (auto simp add: normalize_lists snapshot_refs_def region_refs_def)
  have 2: "\<exists>rd\<in>set (regions_of data). a \<in> set (region_refs rd) \<and>
      heap (normalize h data) a = setitem (h a) ''region'' (VStr (region_of rd))"
    if "a \<in> set (snapshot_refs data)" for a
  proof -
    from that have "a \<in> set (concat (map region_refs (regions_of data)))"
      by (simp add: snapshot_refs_def)
    from fold_heap_some_region[OF this,
        of "\<lparr>heap = h, all_instances = [], all_untagged = [], all_stopped = [],
             all_unused_volumes = [], all_unused_eips = []\<rparr>"]
    show ?thesis by (simp add: normalize_def)
  qed
  have 3: "heap (normalize h data) a = h a" if "a \<notin> set (snapshot_refs data)" for a
    using that fold_heap_outside[of a "regions_of data"]
    by (simp add: normalize_def snapshot_refs_def)
  have 4: "map_of (heap (normalize h data) a) k = map_of (h a) k" if "k \<noteq> ''region''" for a k
    using that by (simp add: normalize_def fold_heap_other_keys)
  from 1 2 3 4 show ?thesis by blast
qed

text \<open>
  On the two-region snapshot: object 1 is shared and carries the region, object 8
  is outside the snapshot, and the state of object 0 is kept.
\<close>

theorem normalizer_shares_entities_witness:
  "set (all_instances (normalize ex_heap ex_data)) \<union>
   set (all_untagged (normalize ex_heap ex_data)) \<union>
   set (all_stopped (normalize ex_heap ex_data)) \<union>
   set (all_unused_volumes (normalize ex_heap ex_data)) \<union>
   set (all_unused_eips (normalize ex_heap ex_data)) = set (snapshot_refs ex_data) \<and>
   1 \<in> set (snapshot_refs ex_data) \<and>
   (\<exists>rd\<in>set (regions_of ex_data). 1 \<in> set (region_refs rd) \<and>
      heap (normalize ex_heap ex_data) 1 = setitem (ex_heap 1) ''region'' (VStr (region_of rd))) \<and>
   8 \<notin> set (snapshot_refs ex_data) \<and>
   heap (normalize ex_heap ex_data) 8 = ex_heap 8 \<and>
   map_of (heap (normalize ex_heap ex_data) 0) ''state'' = map_of (ex_heap 0) ''state''"
proof -
  have i: "1 \<in> set (snapshot_refs ex_data)" and o: "8 \<notin> set (snapshot_refs ex_data)"
    by (simp_all add: snapshot_refs_def regions_of_def ex_data_def region_refs_def
        instance_details_def nested_list_def ex_region_a_def ex_region_b_def)
  have k: "''state'' \<noteq> ''region''" by simp
  note t = normalizer_shares_entities[of ex_heap ex_data]
  note t1 = t[THEN conjunct1]
    and t2 = t[THEN conjunct2, THEN conjunct1, rule_format, OF i]
    and t3 = t[THEN conjunct2, THEN conjunct2, THEN conjunct1, rule_format, OF o]
    and t4 = t[THEN conjunct2, THEN conjunct2, THEN conjunct2, rule_format, OF k]
  from t1 i t2 o t3 t4 show ?thesis
    by (intro conjI)
qed

text \<open>
  Claim C1 as stated fails: on the two-region snapshot the flat list of instances
  and the nested lists have an object in common, and the nested instance at
  address 0 is not what it was before the flattening.
\<close>

theorem normalizer_copies_counterexample:
  "set (all_instances (normalize ex_heap ex_data)) \<inter> set (snapshot_refs ex_data) \<noteq> {} \<and>
   heap (normalize ex_heap ex_data) 0 \<noteq> ex_heap 0"
  by code_simp

section \<open>Properties of the filters\<close>

lemma filter_instances_eq:
  "filter_instances sr ss se so insts = filter (satisfies_all sr ss se so) insts"
  by (auto simp add: filter_instances_def satisfies_all_def satisfies_def Let_def
      intro: filter_cong)

text \<open>
  Claim C4. For every list of instances and every choice of the four selected
  values, the result of the filters is the input with the instances that fail a
  constraint removed, in the input order: an instance stays exactly when, for
  each of region, state, environment and owner, the selected value is the
  match-all option of that box or equals the field of the instance.
\<close>

theorem filter_characterization:
  "filter_instances sr ss se so insts = filter (satisfies_all sr ss se so) insts \<and>
   subseq (filter_instances sr ss se so insts) insts \<and>
   (\<forall>inst. satisfies_all sr ss se so inst \<longleftrightarrow>
      (sr = VStr ''Todas'' \<or> get inst ''region'' = sr) \<and>
      (ss = VStr ''Todos'' \<or> get inst ''state'' = ss) \<and>
      (se = VStr ''Todos'' \<or> get inst ''environment'' = se) \<and>
      (so = VStr ''Todos'' \<or> get inst ''owner'' = so))"
  by (simp add: filter_instances_eq satisfies_all_def satisfies_def)

text \<open>
  Three instances filtered on region us-west-2 and environment prod: only the
  second one passes both constraints.
\<close>

theorem filter_characterization_witness:
  "filter_instances (VStr ''us-west-2'') (VStr ''Todos'') (VStr ''prod'') (VStr ''Todos'')
     [[(''instance_id'', VStr ''i-3''), (''environment'', VStr ''prod''),
       (''region'', VStr ''eu-west-1'')],
      [(''instance_id'', VStr ''i-1''), (''environment'', VStr ''prod''),
       (''region'', VStr ''us-west-2'')],
      [(''instance_id'', VStr ''i-2''), (''region'', VStr ''us-west-2'')]] =
     [[(''instance_id'', VStr ''i-1''), (''environment'', VStr ''prod''),
       (''region'', VStr ''us-west-2'')]]"
proof -
  note c = filter_characterization[of "VStr ''us-west-2''" "VStr ''Todos''" "VStr ''prod''"
      "VStr ''Todos''", THEN conjunct1]
  show ?thesis
    unfolding c by (simp add: satisfies_all_def satisfies_def get_def)
qed

text \<open>
  Claim C5. Filtering the result of the filters again with the same four selected
  values changes nothing.
\<close>

theorem filter_idempotent:
  "filter_instances sr ss se so (filter_instances sr ss se so insts) =
   filter_instances sr ss se so insts"
  by (simp add: filter_instances_eq)

text \<open>
  Two instances filtered twice on state running and owner alice.
\<close>

theorem filter_idempotent_witness:
  "filter_instances (VStr ''Todas'') (VStr ''running'') (VStr ''Todos'') (VStr ''alice'')
     (filter_instances (VStr ''Todas'') (VStr ''running'') (VStr ''Todos'') (VStr ''alice'')
        [[(''instance_id'', VStr ''i-1''), (''state'', VStr ''running''), (''owner'', VStr ''alice'')],
         [(''instance_id'', VStr ''i-2''), (''state'', VStr ''stopped''), (''owner'', VStr ''alice'')]]) =
     [[(''instance_id'', VStr ''i-1''), (''state'', VStr ''running''), (''owner'', VStr ''alice'')]]"
proof -
  have "filter_instances (VStr ''Todas'') (VStr ''running'') (VStr ''Todos'') (VStr ''alice'')
        [[(''instance_id'', VStr ''i-1''), (''state'', VStr ''running''), (''owner'', VStr ''alice'')],
         [(''instance_id'', VStr ''i-2''), (''state'', VStr ''stopped''), (''owner'', VStr ''alice'')]] =
     [[(''instance_id'', VStr ''i-1''), (''state'', VStr ''running''), (''owner'', VStr ''alice'')]]"
    by (simp add: filter_instances_def get_def)
  with filter_idempotent[of "VStr ''Todas''" "VStr ''running''" "VStr ''Todos''" "VStr ''alice''"
      "[[(''instance_id'', VStr ''i-1''), (''state'', VStr ''running''), (''owner'', VStr ''alice'')],
        [(''instance_id'', VStr ''i-2''), (''state'', VStr ''stopped''), (''owner'', VStr ''alice'')]]"]
  show ?thesis by simp
qed

text \<open>
  Claim C2. The options offered for the environment are the values of
  \<^verbatim>\<open>inst.get('environment')\<close> that differ from the string N/A. For an instance
  without the key that value is \<^verbatim>\<open>None\<close>, which differs from N/A: the instance
  does contribute an option, \<^verbatim>\<open>None\<close>. With every box on its match-all option
  the instance is returned, and it is also what selecting \<^verbatim>\<open>None\<close> returns.
\<close>

theorem environment_option_of_absent_key:
  "environment_options
     [[(''instance_id'', VStr ''i-2''), (''state'', VStr ''stopped''),
       (''region'', VStr ''us-west-2'')]] = Inr {VNone} \<and>
   filter_instances (VStr ''Todas'') (VStr ''Todos'') (VStr ''Todos'') (VStr ''Todos'')
     [[(''instance_id'', VStr ''i-2''), (''state'', VStr ''stopped''),
       (''region'', VStr ''us-west-2'')]] =
     [[(''instance_id'', VStr ''i-2''), (''state'', VStr ''stopped''),
       (''region'', VStr ''us-west-2'')]] \<and>
   filter_instances (VStr ''Todas'') (VStr ''Todos'') VNone (VStr ''Todos'')
     [[(''instance_id'', VStr ''i-2''), (''state'', VStr ''stopped''),
       (''region'', VStr ''us-west-2'')]] =
     [[(''instance_id'', VStr ''i-2''), (''state'', VStr ''stopped''),
       (''region'', VStr ''us-west-2'')]]"
  by code_simp

section \<open>Properties of the tagging analysis\<close>

lemma tag_missing_well_typed:
  "tags_well_typed inst \<Longrightarrow>
   tag_missing (get_default inst ''tags'' (VDict [])) k = Inr (lacks_tag k inst)"
  by (auto simp add: tags_well_typed_def get_default_def lacks_tag_def tags_of_def
      has_key_def get_def split: option.splits val.splits)

lemma missing_tags_loop_eq:
  "list_all tags_well_typed insts \<Longrightarrow>
   missing_tags_loop insts m =
     Inr \<lparr>sem_name = sem_name m @ filter (lacks_tag ''Name'') insts,
          sem_owner = sem_owner m @ filter (lacks_tag ''owner'') insts,
          sem_costcenter = sem_costcenter m @ filter (lacks_tag ''CostCenter'') insts,
          sem_environment = sem_environment m @ filter (lacks_tag ''Environment'') insts\<rparr>"
proof (induction insts arbitrary: m)
  case Nil
  show ?case by simp
next
  case (Cons inst rest)
  from Cons.prems have wt: "tags_well_typed inst" and rest: "list_all tags_well_typed rest"
    by simp_all
  show ?case
    by (simp add: tag_missing_well_typed[OF wt] Cons.IH[OF rest] Let_def)
qed

text \<open>
  Claim C6, as amended. The buckets are filled and counted only under
  \<^verbatim>\<open>if all_untagged:\<close>. When the list of untagged resources is not empty and
  the tags of every instance are a dictionary (or absent), the analysis raises
  nothing, each of the four buckets is the list of the instances, in order and
  once per occurrence, whose tags lack the key of the bucket or hold the literal
  N/A under it, and the tab shows the lengths of these four lists.
\<close>

theorem missing_buckets:
  assumes "list_all tags_well_typed insts" and "untagged \<noteq> []"
  shows "missing_tags_analysis insts =
     Inr \<lparr>sem_name = filter (lacks_tag ''Name'') insts,
          sem_owner = filter (lacks_tag ''owner'') insts,
          sem_costcenter = filter (lacks_tag ''CostCenter'') insts,
          sem_environment = filter (lacks_tag ''Environment'') insts\<rparr> \<and>
   tagging_compliance untagged insts =
     Inr (MissingTags
            \<lparr>n_sem_name = length (filter (lacks_tag ''Name'') insts),
             n_sem_owner = length (filter (lacks_tag ''owner'') insts),
             n_sem_costcenter = length (filter (lacks_tag ''CostCenter'') insts),
             n_sem_environment = length (filter (lacks_tag ''Environment'') insts)\<rparr>
            (map untagged_row_of untagged))"
proof -
  from assms(1) have m: "missing_tags_analysis insts =
     Inr \<lparr>sem_name = filter (lacks_tag ''Name'') insts,
          sem_owner = filter (lacks_tag ''owner'') insts,
          sem_costcenter = filter (lacks_tag ''CostCenter'') insts,
          sem_environment = filter (lacks_tag ''Environment'') insts\<rparr>"
    by (simp add: missing_tags_analysis_def missing_tags_loop_eq)
  from assms(2) show ?thesis
    by (simp add: m tagging_compliance_def counts_of_def)
qed

text \<open>
  One untagged entry and one instance with the tags Name: x and owner: N/A: the
  instance is once in the bucket of the owner and not in the bucket of the name,
  and the tab shows 0 and 1 for them.
\<close>

theorem missing_buckets_witness:
  "list_all tags_well_typed
     [[(''instance_id'', VStr ''i-1''),
       (''tags'', VDict [(''Name'', VStr ''x''), (''owner'', VStr ''N/A'')])]] \<and>
   [[(''instance_id'', VStr ''i-1''), (''name'', VStr ''x''), (''owner'', VStr ''N/A''),
     (''region'', VStr ''us-west-2'')]] \<noteq> [] \<and>
   missing_tags_analysis
     [[(''instance_id'', VStr ''i-1''),
       (''tags'', VDict [(''Name'', VStr ''x''), (''owner'', VStr ''N/A'')])]] =
     Inr \<lparr>sem_name = [],
          sem_owner = [[(''instance_id'', VStr ''i-1''),
                        (''tags'', VDict [(''Name'', VStr ''x''), (''owner'', VStr ''N/A'')])]],
          sem_costcenter = [[(''instance_id'', VStr ''i-1''),
                        (''tags'', VDict [(''Name'', VStr ''x''), (''owner'', VStr ''N/A'')])]],
          sem_environment = [[(''instance_id'', VStr ''i-1''),
                        (''tags'', VDict [(''Name'', VStr ''x''), (''owner'', VStr ''N/A'')])]]\<rparr> \<and>
   tagging_compliance
     [[(''instance_id'', VStr ''i-1''), (''name'', VStr ''x''), (''owner'', VStr ''N/A''),
       (''region'', VStr ''us-west-2'')]]
     [[(''instance_id'', VStr ''i-1''),
       (''tags'', VDict [(''Name'', VStr ''x''), (''owner'', VStr ''N/A'')])]] =
     Inr (MissingTags
            \<lparr>n_sem_name = 0, n_sem_owner = 1, n_sem_costcenter = 1, n_sem_environment = 1\<rparr>
            [\<lparr>row_instance_id = VStr ''i-1'', row_nome = VStr ''x'',
              row_regiao = VStr ''us-west-2'', row_estado = VStr ''N/A'',
              row_tipo = VStr ''N/A'', name_tag = True, owner_tag = False,
              costcenter_tag = True, environment_tag = True\<rparr>])"
proof -
  have wt: "list_all tags_well_typed
     [[(''instance_id'', VStr ''i-1''),
       (''tags'', VDict [(''Name'', VStr ''x''), (''owner'', VStr ''N/A'')])]]"
    by (simp add: tags_well_typed_def)
  have ne: "[[(''instance_id'', VStr ''i-1''), (''name'', VStr ''x''), (''owner'', VStr ''N/A''),
     (''region'', VStr ''us-west-2'')]] \<noteq> []"
    by simp
  from missing_buckets[OF wt ne] wt show ?thesis
    by (simp add: lacks_tag_def tags_of_def untagged_row_of_def get_def get_default_def)
qed

text \<open>
  Claim C6 as stated fails: it places every instance of \<^verbatim>\<open>all_instances\<close> in
  the buckets of the tags it lacks. With no untagged resource the instance with the
  tags Name: x and owner: N/A, which lacks the owner, is counted in no bucket:
  the tab shows the success message.
\<close>

theorem missing_buckets_gate_counterexample:
  "lacks_tag ''owner''
     [(''instance_id'', VStr ''i-1''),
      (''tags'', VDict [(''Name'', VStr ''x''), (''owner'', VStr ''N/A'')])] \<and>
   tagging_compliance []
     [[(''instance_id'', VStr ''i-1''),
       (''tags'', VDict [(''Name'', VStr ''x''), (''owner'', VStr ''N/A'')])]] =
     Inr AllTagged"
  by (simp add: lacks_tag_def tags_of_def tagging_compliance_def)

text \<open>
  Claim C10. With an empty list of untagged resources the tab shows the success
  message whatever the instances are, so no bucket is counted; the counts and the
  rows of the table are produced only for a non-empty list, one row per untagged
  entry.
\<close>

theorem tagging_gate:
  "tagging_compliance [] insts = Inr AllTagged \<and>
   (\<forall>c rows. tagging_compliance untagged insts = Inr (MissingTags c rows) \<longrightarrow>
      untagged \<noteq> [] \<and> rows = map untagged_row_of untagged) \<and>
   (tagging_compliance untagged insts = Inr AllTagged \<longleftrightarrow> untagged = [])"
  by (auto simp add: tagging_compliance_def split: sum.splits)

text \<open>
  An instance without any tag and an empty list of untagged resources give the
  success message; one untagged entry does not.
\<close>

theorem tagging_gate_witness:
  "tagging_compliance [] [[(''instance_id'', VStr ''i-2''), (''state'', VStr ''stopped'')]] =
     Inr AllTagged \<and>
   lacks_tag ''Name'' [(''instance_id'', VStr ''i-2''), (''state'', VStr ''stopped'')] \<and>
   tagging_compliance [[(''instance_id'', VStr ''i-2''), (''owner'', VStr ''N/A'')]]
     [[(''instance_id'', VStr ''i-2''), (''state'', VStr ''stopped'')]] \<noteq> Inr AllTagged"
proof -
  have l: "lacks_tag ''Name'' [(''instance_id'', VStr ''i-2''), (''state'', VStr ''stopped'')]"
    by (simp add: lacks_tag_def tags_of_def)
  note g = tagging_gate[of "[[(''instance_id'', VStr ''i-2''), (''state'', VStr ''stopped'')]]"
      "[[(''instance_id'', VStr ''i-2''), (''owner'', VStr ''N/A'')]]"]
  from g l show ?thesis by simp
qed

section \<open>Properties of the cost metrics and of the summary\<close>

lemma py_sum_ints: "py_sum acc (map VInt ns) = Inr (acc + sum_list ns)"
  by (induction ns arbitrary: acc) simp_all

lemma size_default: "size_well_typed v \<Longrightarrow> get_default v ''size'' (VInt 0) = VInt (size_gb v)"
  by (auto simp add: size_well_typed_def get_default_def size_gb_def split: option.splits val.splits)

lemma total_size_eq:
  assumes "list_all size_well_typed vols"
  shows "total_size vols = Inr (sum_list (map size_gb vols))"
proof -
  from assms have m: "map (\<lambda>v. get_default v ''size'' (VInt 0)) vols = map VInt (map size_gb vols)"
    by (induction vols) (simp_all add: size_default)
  show ?thesis
    unfolding total_size_def m by (simp only: py_sum_ints add_0)
qed

lemma normalize_other_keys:
  "k \<noteq> ''region'' \<Longrightarrow> map_of (heap (normalize h data) a) k = map_of (h a) k"
  by (simp add: normalize_def fold_heap_other_keys)

lemma normalize_keeps_size:
  "size_gb (heap (normalize h data) a) = size_gb (h a)"
  "size_well_typed (heap (normalize h data) a) = size_well_typed (h a)"
  by (simp_all add: size_gb_def size_well_typed_def normalize_other_keys)

lemma normalize_keeps_state:
  "get (heap (normalize h data) a) ''state'' = get (h a) ''state''"
  by (simp add: get_def normalize_other_keys)

text \<open>
  Claim C7. For every snapshot whose unused volumes have an integer size or none,
  the counts of stopped instances, unused volumes and unused addresses are the
  lengths of the three flat collections, the risk total is their sum, and the
  total size is the sum of the sizes of the unused volumes of the snapshot, a
  volume without size counting 0. The volumes column shows count and total when
  there is a volume.
\<close>

theorem cost_risk_arithmetic:
  assumes "\<forall>a\<in>set (all_unused_volumes (normalize h data)). size_well_typed (h a)"
  shows "stopped_instances (normalize h data) = length (all_stopped (normalize h data)) \<and>
         unused_volumes_count (normalize h data) = length (all_unused_volumes (normalize h data)) \<and>
         unused_eips_count (normalize h data) = length (all_unused_eips (normalize h data)) \<and>
         total_cost_risks (normalize h data) =
           stopped_instances (normalize h data) + unused_volumes_count (normalize h data) +
           unused_eips_count (normalize h data) \<and>
         total_size (objects (heap (normalize h data)) (all_unused_volumes (normalize h data))) =
           Inr (\<Sum>a\<leftarrow>all_unused_volumes (normalize h data). size_gb (h a)) \<and>
         unused_volumes_view
             (objects (heap (normalize h data)) (all_unused_volumes (normalize h data))) =
           Inr (if all_unused_volumes (normalize h data) = [] then NoUnusedVolumes
                else UnusedVolumes (length (all_unused_volumes (normalize h data)))
                       (\<Sum>a\<leftarrow>all_unused_volumes (normalize h data). size_gb (h a)))"
proof -
  let ?f = "normalize h data"
  let ?vols = "objects (heap ?f) (all_unused_volumes ?f)"
  from assms have wt: "list_all size_well_typed ?vols"
    by (simp add: objects_def list_all_iff normalize_keeps_size)
  have sizes: "map size_gb ?vols = map (\<lambda>a. size_gb (h a)) (all_unused_volumes ?f)"
    by (simp add: objects_def normalize_keeps_size)
  have ts: "total_size ?vols = Inr (\<Sum>a\<leftarrow>all_unused_volumes ?f. size_gb (h a))"
    using total_size_eq[OF wt] by (simp only: sizes)
  have view: "unused_volumes_view ?vols =
      Inr (if all_unused_volumes ?f = [] then NoUnusedVolumes
           else UnusedVolumes (length (all_unused_volumes ?f))
                  (\<Sum>a\<leftarrow>all_unused_volumes ?f. size_gb (h a)))"
    unfolding unused_volumes_view_def ts by (simp add: objects_def)
  show ?thesis
    using ts view
    by (simp add: stopped_instances_def unused_volumes_count_def unused_eips_count_def
        total_cost_risks_def)
qed

text \<open>
  The two-region snapshot: one stopped instance, volumes of 10 and 20 GB, one
  address.
\<close>

theorem cost_risk_arithmetic_witness:
  "size_well_typed (ex_heap 3) \<and> size_well_typed (ex_heap 4) \<and>
   all_unused_volumes (normalize ex_heap ex_data) = [3, 4] \<and>
   stopped_instances (normalize ex_heap ex_data) = 1 \<and>
   unused_volumes_count (normalize ex_heap ex_data) = 2 \<and>
   unused_eips_count (normalize ex_heap ex_data) = 1 \<and>
   total_cost_risks (normalize ex_heap ex_data) = 4 \<and>
   total_size (objects (heap (normalize ex_heap ex_data))
     (all_unused_volumes (normalize ex_heap ex_data))) = Inr 30 \<and>
   unused_volumes_view (objects (heap (normalize ex_heap ex_data))
     (all_unused_volumes (normalize ex_heap ex_data))) = Inr (UnusedVolumes 2 30)"
proof -
  have vols: "all_unused_volumes (normalize ex_heap ex_data) = [3, 4]"
    and stp: "all_stopped (normalize ex_heap ex_data) = [2]"
    and eips: "all_unused_eips (normalize ex_heap ex_data) = [5]"
    by (simp_all add: normalize_lists regions_of_def ex_data_def nested_list_def
        ex_region_a_def ex_region_b_def)
  have wt: "size_well_typed (ex_heap 3)" "size_well_typed (ex_heap 4)"
    by (simp_all add: size_well_typed_def ex_heap_def)
  have sz: "size_gb (ex_heap 3) = 10" "size_gb (ex_heap 4) = 20"
    by (simp_all add: size_gb_def ex_heap_def)
  from wt vols have pre:
    "\<forall>a\<in>set (all_unused_volumes (normalize ex_heap ex_data)). size_well_typed (ex_heap a)"
    by simp
  from cost_risk_arithmetic[OF pre] wt show ?thesis
    by (simp add: vols stp eips sz)
qed

text \<open>
  Claim C8. The summary has its seven fixed keys; the total is the length of the
  flat list of instances, which is the sum of the lengths of the instance details
  of the regions, and the other values are the number of flattened instances whose
  state is running, the lengths of the four other flat collections and the number
  of regions. The totals reported in the regions are not read.
\<close>

theorem summary_recomputed:
  "summary data (normalize h data) =
     \<lparr>total_de_instancias = length (all_instances (normalize h data)),
      instancias_em_execucao =
        length (filter (\<lambda>a. get (h a) ''state'' = VStr ''running'')
                  (all_instances (normalize h data))),
      instancias_paradas = length (all_stopped (normalize h data)),
      recursos_nao_taggeados = length (all_untagged (normalize h data)),
      volumes_nao_utilizados = length (all_unused_volumes (normalize h data)),
      eips_nao_utilizados = length (all_unused_eips (normalize h data)),
      total_de_regioes = length (regions_of data)\<rparr> \<and>
   total_de_instancias (summary data (normalize h data)) =
     (\<Sum>rd\<leftarrow>regions_of data. length (instance_details rd))"
proof -
  have run: "running_instances (normalize h data) =
      length (filter (\<lambda>a. get (h a) ''state'' = VStr ''running'')
                (all_instances (normalize h data)))"
    by (simp add: running_instances_def objects_def filter_map comp_def normalize_keeps_state)
  have tot: "length (all_instances (normalize h data)) =
      (\<Sum>rd\<leftarrow>regions_of data. length (instance_details rd))"
    by (simp add: normalize_lists length_concat comp_def)
  show ?thesis
    by (simp add: summary_def run tot total_instances_def stopped_instances_def untagged_count_def)
qed

text \<open>
  On the two-region snapshot the summary counts 3 instances, while the regions
  report totals that add up to 8.
\<close>

theorem summary_recomputed_witness:
  "summary ex_data (normalize ex_heap ex_data) =
     \<lparr>total_de_instancias = 3, instancias_em_execucao = 2, instancias_paradas = 1,
      recursos_nao_taggeados = 1, volumes_nao_utilizados = 2, eips_nao_utilizados = 1,
      total_de_regioes = 2\<rparr> \<and>
   (\<Sum>rd\<leftarrow>regions_of ex_data. stat_total (stats_of rd)) = 8"
proof -
  have lists: "all_instances (normalize ex_heap ex_data) = [0, 1, 6]"
    "all_untagged (normalize ex_heap ex_data) = [7]"
    "all_stopped (normalize ex_heap ex_data) = [2]"
    "all_unused_volumes (normalize ex_heap ex_data) = [3, 4]"
    "all_unused_eips (normalize ex_heap ex_data) = [5]"
    by (simp_all add: normalize_lists regions_of_def ex_data_def nested_list_def
        instance_details_def ex_region_a_def ex_region_b_def)
  have run: "length (filter (\<lambda>a. get (ex_heap a) ''state'' = VStr ''running'') [0, 1, 6]) = 2"
    by (simp add: get_def ex_heap_def)
  have regs: "length (regions_of ex_data) = 2"
    and tot: "(\<Sum>rd\<leftarrow>regions_of ex_data. stat_total (stats_of rd)) = 8"
    by (simp_all add: regions_of_def ex_data_def stats_of_def ex_region_a_def ex_region_b_def)
  note s = summary_recomputed[of ex_data ex_heap, THEN conjunct1, unfolded lists run regs]
  from s tot show ?thesis
    by simp
qed

section \<open>Properties of the region frame\<close>

lemma sort_values_sorted:
  "sorted_wrt (\<lambda>r1 r2. total_col r2 \<le> total_col r1) (sort_values_total_desc tie rows)"
proof -
  let ?key = "\<lambda>(i :: nat, r). (- total_col r, tie (map total_col rows) i)"
  let ?ps = "sort_key ?key (enumerate 0 rows)"
  have "sorted (map ?key ?ps)"
    by (rule sorted_sort_key)
  then have "sorted_wrt (\<lambda>p q. ?key p \<le> ?key q) ?ps"
    by (simp add: sorted_map)
  then have "sorted_wrt (\<lambda>p q. total_col (snd q) \<le> total_col (snd p)) ?ps"
    by (rule sorted_wrt_mono_rel[rotated]) (auto simp add: less_eq_prod_def)
  then show ?thesis
    by (simp add: sort_values_total_desc_def Let_def sorted_wrt_map)
qed

lemma sort_values_mset: "mset (sort_values_total_desc tie rows) = mset rows"
proof -
  have "mset (map snd (sort_key f (enumerate 0 rows))) = mset (map snd (enumerate 0 rows))"
    for f :: "nat \<times> region_row \<Rightarrow> int \<times> nat"
    by (simp only: mset_map mset_sort)
  then show ?thesis
    by (simp add: sort_values_total_desc_def Let_def)
qed

lemma region_stats_keys_aux:
  "distinct (map fst acc) \<Longrightarrow>
   distinct (map fst (fold (\<lambda>rd acc. AList.update (region_of rd) (stats_of rd) acc) rs acc)) \<and>
   fst ` set (fold (\<lambda>rd acc. AList.update (region_of rd) (stats_of rd) acc) rs acc) =
     fst ` set acc \<union> region_of ` set rs"
proof (induction rs arbitrary: acc)
  case Nil
  then show ?case by simp
next
  case (Cons r rs)
  from Cons.prems have d: "distinct (map fst (AList.update (region_of r) (stats_of r) acc))"
    by (simp add: distinct_update)
  from Cons.IH[OF d] show ?case
    by (auto simp add: dom_update)
qed

lemma region_stats_keys:
  "distinct (map fst (region_stats data))"
  "fst ` set (region_stats data) = region_of ` set (regions_of data)"
  using region_stats_keys_aux[of "[]" "regions_of data"]
  by (simp_all add: region_stats_def)

lemma regiao_region_rows: "map regiao (region_rows rs) = map fst rs"
  by (simp add: region_rows_def case_prod_unfold)

lemma mset_regiao_sort:
  "mset (map regiao (sort_values_total_desc tie rows)) = mset (map regiao rows)"
  by (simp only: mset_map sort_values_mset)

text \<open>
  Claim C9, as amended. Whatever order the library gives to rows of equal Total,
  the frame of the regions has one row for each distinct region code of the
  snapshot and is sorted in descending order of the reported total. The total is
  the only sort key.
\<close>

theorem df_regions_sorted:
  assumes "df_regions tie data = Some rows"
  shows "sorted_wrt (\<lambda>r1 r2. total_col r2 \<le> total_col r1) rows \<and>
         mset rows = mset (region_rows (region_stats data)) \<and>
         distinct (map regiao rows) \<and>
         set (map regiao rows) = region_of ` set (regions_of data)"
proof -
  from assms have rows: "rows = sort_values_total_desc tie (region_rows (region_stats data))"
    by (simp add: df_regions_def split: if_splits)
  have "mset (map regiao rows) = mset (map regiao (region_rows (region_stats data)))"
    unfolding rows by (rule mset_regiao_sort)
  then have m: "mset (map regiao rows) = mset (map fst (region_stats data))"
    by (simp only: regiao_region_rows)
  from m have "distinct (map regiao rows) = distinct (map fst (region_stats data))"
    by (rule mset_eq_imp_distinct_iff)
  then have d: "distinct (map regiao rows)"
    by (simp add: region_stats_keys)
  from m have "set (map regiao rows) = set (map fst (region_stats data))"
    by (rule mset_eq_setD)
  then have s: "set (map regiao rows) = region_of ` set (regions_of data)"
    by (simp add: region_stats_keys)
  from d s show ?thesis
    by (simp add: rows sort_values_sorted sort_values_mset)
qed

text \<open>
  The two-region snapshot under the stable order: both regions report the total 4.
\<close>

theorem df_regions_sorted_witness:
  "df_regions (\<lambda>ks i. i) ex_data =
     Some [\<lparr>regiao = ''us-west-2'', em_execucao = 3, paradas = 1, total_col = 4\<rparr>,
           \<lparr>regiao = ''eu-west-1'', em_execucao = 1, paradas = 0, total_col = 4\<rparr>] \<and>
   sorted_wrt (\<lambda>r1 r2. total_col r2 \<le> total_col r1)
     [\<lparr>regiao = ''us-west-2'', em_execucao = 3, paradas = 1, total_col = 4\<rparr>,
      \<lparr>regiao = ''eu-west-1'', em_execucao = 1, paradas = 0, total_col = 4\<rparr>] \<and>
   mset [\<lparr>regiao = ''us-west-2'', em_execucao = 3, paradas = 1, total_col = 4\<rparr>,
         \<lparr>regiao = ''eu-west-1'', em_execucao = 1, paradas = 0, total_col = 4\<rparr>] =
     mset (region_rows (region_stats ex_data)) \<and>
   region_of ` set (regions_of ex_data) = {''us-west-2'', ''eu-west-1''}"
proof -
  have d: "df_regions (\<lambda>ks i. i) ex_data =
     Some [\<lparr>regiao = ''us-west-2'', em_execucao = 3, paradas = 1, total_col = 4\<rparr>,
           \<lparr>regiao = ''eu-west-1'', em_execucao = 1, paradas = 0, total_col = 4\<rparr>]"
    by code_simp
  note t = df_regions_sorted[OF d]
  from t have "region_of ` set (regions_of ex_data) = {''us-west-2'', ''eu-west-1''}"
    by simp
  with t d show ?thesis
    by (intro conjI) simp_all
qed

text \<open>
  Claim C9 as stated fails: on the two-region snapshot both totals are 4 and the
  frame lists us-west-2 before eu-west-1, the order in which the regions were
  seen, not the ascending order of the region codes.
\<close>

theorem df_regions_tie_counterexample:
  "df_regions (\<lambda>ks i. i) ex_data =
     Some [\<lparr>regiao = ''us-west-2'', em_execucao = 3, paradas = 1, total_col = 4\<rparr>,
           \<lparr>regiao = ''eu-west-1'', em_execucao = 1, paradas = 0, total_col = 4\<rparr>] \<and>
   \<not> total_desc_then_region_asc
        [\<lparr>regiao = ''us-west-2'', em_execucao = 3, paradas = 1, total_col = 4\<rparr>,
         \<lparr>regiao = ''eu-west-1'', em_execucao = 1, paradas = 0, total_col = 4\<rparr>]"
  by code_simp

text \<open>
  The failure does not hang on the order chosen for equal totals. The library sees
  the same column, 4 and 4, for the two regions in either order, so it orders the
  two rows the same way in both frames: whatever that way is, one of the two
  snapshots gets us-west-2 before eu-west-1.
\<close>

lemma df_regions_tie_any_order:
  "df_regions tie ex_data =
     Some [\<lparr>regiao = ''us-west-2'', em_execucao = 3, paradas = 1, total_col = 4\<rparr>,
           \<lparr>regiao = ''eu-west-1'', em_execucao = 1, paradas = 0, total_col = 4\<rparr>] \<or>
   df_regions tie ex_data_swapped =
     Some [\<lparr>regiao = ''us-west-2'', em_execucao = 3, paradas = 1, total_col = 4\<rparr>,
           \<lparr>regiao = ''eu-west-1'', em_execucao = 1, paradas = 0, total_col = 4\<rparr>]"
proof -
  have a: "region_rows (region_stats ex_data) =
     [\<lparr>regiao = ''us-west-2'', em_execucao = 3, paradas = 1, total_col = 4\<rparr>,
      \<lparr>regiao = ''eu-west-1'', em_execucao = 1, paradas = 0, total_col = 4\<rparr>]"
    by (simp add: region_rows_def region_stats_def regions_of_def ex_data_def stats_of_def
        region_of_def ex_region_a_def ex_region_b_def)
  have b: "region_rows (region_stats ex_data_swapped) =
     [\<lparr>regiao = ''eu-west-1'', em_execucao = 1, paradas = 0, total_col = 4\<rparr>,
      \<lparr>regiao = ''us-west-2'', em_execucao = 3, paradas = 1, total_col = 4\<rparr>]"
    by (simp add: region_rows_def region_stats_def regions_of_def ex_data_swapped_def
        stats_of_def region_of_def ex_region_a_def ex_region_b_def)
  have ne: "region_stats ex_data \<noteq> []" "region_stats ex_data_swapped \<noteq> []"
    using a b by (auto simp add: region_rows_def)
  show ?thesis
  proof (cases "tie [4, 4] 0 \<le> tie [4, 4] 1")
    case True
    then have "df_regions tie ex_data =
      Some [\<lparr>regiao = ''us-west-2'', em_execucao = 3, paradas = 1, total_col = 4\<rparr>,
            \<lparr>regiao = ''eu-west-1'', em_execucao = 1, paradas = 0, total_col = 4\<rparr>]"
      by (simp add: df_regions_def ne a sort_values_total_desc_def less_eq_prod_def)
    then show ?thesis ..
  next
    case False
    then have "df_regions tie ex_data_swapped =
      Some [\<lparr>regiao = ''us-west-2'', em_execucao = 3, paradas = 1, total_col = 4\<rparr>,
            \<lparr>regiao = ''eu-west-1'', em_execucao = 1, paradas = 0, total_col = 4\<rparr>]"
      by (simp add: df_regions_def ne b sort_values_total_desc_def less_eq_prod_def)
    then show ?thesis ..
  qed
qed

end
